theory Spec2Isabelle
  imports Main
begin

section \<open>JavaScript values\<close>

text \<open>
  The values the server handles arrive as JSON (event payloads, the token directory's
  response) or from the handshake query. A number is kept as the text JavaScript prints
  for it (\<open>String(x)\<close>: \<open>429\<close>, \<open>1.5\<close>, \<open>18446744073709552000\<close>, \<open>1e+21\<close>, \<open>NaN\<close>), which
  tells any two numbers apart but the two zeros, both printed \<open>0\<close>; nothing this program
  does with a number (testing it for truth, printing it, comparing it with 429) tells the
  two zeros apart. An object is the list of its own properties, the first binding of a
  name being the one that counts.
\<close>

datatype jsval =
    JUndefined
  | JNull
  | JBool bool
  | JNum string
  | JStr string
  | JArr "jsval list"
  | JObj "(string \<times> jsval) list"

datatype js_error = TypeError | SyntaxError

text \<open>\<open>if (v)\<close>, \<open>v || d\<close> and \<open>filter(Boolean)\<close>: the falsy values are undefined, null,
  false, the zeros, NaN and the empty string.\<close>

fun truthy :: "jsval \<Rightarrow> bool" where
  "truthy JUndefined = False"
| "truthy JNull = False"
| "truthy (JBool b) = b"
| "truthy (JNum n) = (n \<noteq> ''0'' \<and> n \<noteq> ''NaN'')"
| "truthy (JStr s) = (s \<noteq> [])"
| "truthy (JArr xs) = True"
| "truthy (JObj fs) = True"

fun nullish :: "jsval \<Rightarrow> bool" where
  "nullish JUndefined = True"
| "nullish JNull = True"
| "nullish v = False"

text \<open>
  Reading a property \<open>v.k\<close> of a value that is neither undefined nor null, for the names
  this program reads (recipientId, senderId, messageContent, groupChatId, messageId,
  readerId, items, expoPushToken, statusCode): none of them is a built-in property of
  objects, arrays, strings, numbers or booleans, so only an object's own binding is found.
\<close>

fun lookup :: "jsval \<Rightarrow> string \<Rightarrow> jsval" where
  "lookup (JObj fs) k = (case map_of fs k of Some v \<Rightarrow> v | None \<Rightarrow> JUndefined)"
| "lookup v k = JUndefined"

text \<open>\<open>v.k\<close> and the destructuring \<open>const { k } = v\<close> throw a TypeError on undefined and null.\<close>

definition field :: "jsval \<Rightarrow> string \<Rightarrow> js_error + jsval" where
  "field v k = (if nullish v then Inl TypeError else Inr (lookup v k))"

text \<open>\<open>v?.k\<close>: undefined on undefined and null.\<close>

definition optField :: "jsval \<Rightarrow> string \<Rightarrow> jsval" where
  "optField v k = (if nullish v then JUndefined else lookup v k)"

subsection \<open>Conversion to a string\<close>

text \<open>
  A template literal \<open>`...${v}...`\<close> and a property key \<open>o[v]\<close> convert \<open>v\<close> to a string.
  A number gives the text it prints as. An array joins its elements with commas,
  undefined and null elements giving the empty string. An object answers with the inherited \<open>toString\<close>, unless an own property named
  toString shadows it: a JSON value is never callable, the inherited \<open>valueOf\<close> returns
  the object itself, and the conversion throws a TypeError.
\<close>

fun toString :: "jsval \<Rightarrow> js_error + string"
  and joinElems :: "jsval list \<Rightarrow> js_error + string"
  where
  "toString JUndefined = Inr ''undefined''"
| "toString JNull = Inr ''null''"
| "toString (JBool b) = Inr (if b then ''true'' else ''false'')"
| "toString (JNum n) = Inr n"
| "toString (JStr s) = Inr s"
| "toString (JArr xs) = joinElems xs"
| "toString (JObj fs) =
     (if ''toString'' \<in> fst ` set fs then Inl TypeError else Inr ''[object Object]'')"
| "joinElems [] = Inr []"
| "joinElems (x # xs) =
     (case (if nullish x then Inr [] else toString x) of
        Inl e \<Rightarrow> Inl e
      | Inr a \<Rightarrow>
         (if xs = [] then Inr a
          else (case joinElems xs of Inl e \<Rightarrow> Inl e | Inr b \<Rightarrow> Inr (a @ '','' @ b))))"

definition printable :: "jsval \<Rightarrow> bool" where
  "printable v = (case toString v of Inl e \<Rightarrow> False | Inr s \<Rightarrow> True)"

section \<open>The presence registry\<close>

text \<open>
  \<open>const activeSockets = {}\<close> is a plain object used as a map from user id to a count. A
  registry is the set of its own properties. A plain object inherits from
  \<open>Object.prototype\<close>, so reading a name it does not own finds the built-in property of
  that name, when there is one.
\<close>

text \<open>
  What a read of \<open>activeSockets[k]\<close> and the arithmetic on it can give:
  a number; NaN; the inherited built-in under a name (a function, or the prototype object
  for \<open>__proto__\<close>); and \<open>SText k n\<close>, the string that converting the built-in under
  \<open>k\<close> to a string and appending \<open>n\<close> times the character 1 produces.
\<close>

datatype slot =
    SUndefined
  | SNum int
  | SNaN
  | SInherited string
  | SText string nat

type_synonym registry = "string \<rightharpoonup> slot"

text \<open>The property names of \<open>Object.prototype\<close> (ECMAScript, with Annex B).\<close>

definition objectPrototypeNames :: "string list" where
  "objectPrototypeNames =
     [''constructor'', ''__defineGetter__'', ''__defineSetter__'', ''hasOwnProperty'',
      ''__lookupGetter__'', ''__lookupSetter__'', ''isPrototypeOf'',
      ''propertyIsEnumerable'', ''toString'', ''valueOf'', ''__proto__'',
      ''toLocaleString'']"

text \<open>\<open>activeSockets[k]\<close>: the own property, else the inherited one, else undefined.\<close>

definition getSlot :: "registry \<Rightarrow> string \<Rightarrow> slot" where
  "getSlot reg k =
     (case reg k of
        Some v \<Rightarrow> v
      | None \<Rightarrow> if k \<in> set objectPrototypeNames then SInherited k else SUndefined)"

text \<open>
  \<open>activeSockets[k] = v\<close> with \<open>v\<close> a number or a string: creates or updates the own
  property. The inherited \<open>__proto__\<close> is an accessor whose setter ignores a value that
  is neither an object nor null, so that assignment changes nothing.
\<close>

definition setSlot :: "registry \<Rightarrow> string \<Rightarrow> slot \<Rightarrow> registry" where
  "setSlot reg k v = (if k = ''__proto__'' \<and> reg k = None then reg else reg(k \<mapsto> v))"

text \<open>\<open>delete activeSockets[k]\<close> removes the own property.\<close>

definition deleteSlot :: "registry \<Rightarrow> string \<Rightarrow> registry" where
  "deleteSlot reg k = reg(k := None)"

fun truthySlot :: "slot \<Rightarrow> bool" where
  "truthySlot SUndefined = False"
| "truthySlot (SNum n) = (n \<noteq> 0)"
| "truthySlot SNaN = False"
| "truthySlot (SInherited k) = True"
| "truthySlot (SText k n) = True"

text \<open>\<open>a || d\<close>\<close>

definition orElse :: "slot \<Rightarrow> slot \<Rightarrow> slot" where
  "orElse a d = (if truthySlot a then a else d)"

text \<open>\<open>a + 1\<close>: addition on numbers, concatenation once an operand converts to a string.\<close>

fun plusOne :: "slot \<Rightarrow> slot" where
  "plusOne (SNum n) = SNum (n + 1)"
| "plusOne SUndefined = SNaN"
| "plusOne SNaN = SNaN"
| "plusOne (SInherited k) = SText k 1"
| "plusOne (SText k n) = SText k (Suc n)"

text \<open>\<open>a - 1\<close>: the operand is converted to a number; none of the strings above is numeric.\<close>

fun minusOne :: "slot \<Rightarrow> slot" where
  "minusOne (SNum n) = SNum (n - 1)"
| "minusOne v = SNaN"

text \<open>\<open>a <= 0\<close>: false whenever the operand converts to NaN.\<close>

fun leZero :: "slot \<Rightarrow> bool" where
  "leZero (SNum n) = (n \<le> 0)"
| "leZero v = False"

text \<open>Line 97: \<open>activeSockets[userId] = (activeSockets[userId] || 0) + 1\<close>.\<close>

definition markOnline :: "registry \<Rightarrow> string \<Rightarrow> registry" where
  "markOnline reg k = setSlot reg k (plusOne (orElse (getSlot reg k) (SNum 0)))"

text \<open>Lines 103 to 106: decrement, then delete the entry when it is \<open><= 0\<close>.\<close>

definition markOffline :: "registry \<Rightarrow> string \<Rightarrow> registry" where
  "markOffline reg k =
     (let reg' = setSlot reg k (minusOne (orElse (getSlot reg k) (SNum 1)))
      in if leZero (getSlot reg' k) then deleteSlot reg' k else reg')"

text \<open>Line 121: \<open>const active = activeSockets[recipientId] || 0\<close>.\<close>

definition active :: "registry \<Rightarrow> string \<Rightarrow> slot" where
  "active reg k = orElse (getSlot reg k) (SNum 0)"

text \<open>Line 122 takes the push path when \<open>active === 0\<close>; the user is online otherwise.\<close>

definition isOnline :: "registry \<Rightarrow> string \<Rightarrow> bool" where
  "isOnline reg k = (active reg k \<noteq> SNum 0)"

text \<open>A sequence of calls, each for some user.\<close>

datatype call = MarkOnline string | MarkOffline string

fun applyCall :: "registry \<Rightarrow> call \<Rightarrow> registry" where
  "applyCall reg (MarkOnline k) = markOnline reg k"
| "applyCall reg (MarkOffline k) = markOffline reg k"

fun run :: "registry \<Rightarrow> call list \<Rightarrow> registry" where
  "run reg [] = reg"
| "run reg (c # cs) = run (applyCall reg c) cs"

section \<open>Effects\<close>

text \<open>
  A handler's run is the list of what it did, in the order it did it, and how it ended:
  \<open>Inr\<close> when it returned, \<open>Inl\<close> when it threw (for an \<open>async\<close> function: when its
  promise was rejected). Console output is kept as its level; the conversions of the
  values a log line prints are evaluated, because they can throw.
\<close>

datatype level = LogL | WarnL | ErrorL

record push_message =
  to :: jsval
  title :: string
  body :: jsval

text \<open>What one call of \<open>sendPushWithRetry\<close> does.\<close>

datatype pstep =
    PConsole level
  | SendPush push_message
  | Sleep nat

text \<open>
  What a handler does: console output, \<open>io.to(room).emit(event, payload)\<close>,
  \<open>socket.join(room)\<close> by a socket, the read of \<open>activeSockets[key]\<close>, \<open>fetch(url)\<close>, and
  a call \<open>sendPushWithRetry(token, messageContent)\<close> with what that call did. The calls
  of one fan-out start in the order listed and then proceed independently of each other.
\<close>

datatype step =
    Console level
  | Emit string string jsval
  | Join string string
  | ReadActive string
  | Fetch string
  | Invoke jsval jsval "pstep list"

type_synonym 'a eff = "step list \<times> (js_error + 'a)"

definition ret :: "'a \<Rightarrow> 'a eff" where
  "ret x = ([], Inr x)"

definition lift :: "js_error + 'a \<Rightarrow> 'a eff" where
  "lift r = ([], r)"

definition effect :: "step \<Rightarrow> unit eff" where
  "effect st = ([st], Inr ())"

text \<open>Sequencing: what follows a statement that threw does not happen.\<close>

definition andThen :: "'a eff \<Rightarrow> ('a \<Rightarrow> 'b eff) \<Rightarrow> 'b eff" where
  "andThen m f =
     (case m of
        (steps, Inl e) \<Rightarrow> (steps, Inl e)
      | (steps, Inr x) \<Rightarrow> (case f x of (steps', r) \<Rightarrow> (steps @ steps', r)))"

section \<open>The environment\<close>

text \<open>
  The collaborators are parameters: the variable \<open>EXPO_PUBLIC_SOCKET_URL\<close>, what
  \<open>fetch\<close> answers for a URL (a rejection, or a response with \<open>ok\<close>, \<open>status\<close> and the
  body \<open>res.json()\<close> parses, if it parses), the SDK's \<open>Expo.isExpoPushToken\<close>, and what
  \<open>expo.sendPushNotificationsAsync\<close> answers at each attempt of each call of
  \<open>sendPushWithRetry\<close> in a fan-out: tickets, or a thrown value.
\<close>

datatype fetch_outcome = NetworkError | Response bool int "jsval option"

datatype send_outcome = Ticket jsval | Throws jsval

record env =
  socketUrl :: "string option"
  fetch :: "string \<Rightarrow> fetch_outcome"
  isExpoPushToken :: "jsval \<Rightarrow> bool"
  sendPush :: "nat \<Rightarrow> nat \<Rightarrow> send_outcome"

section \<open>Token resolver\<close>

text \<open>\<open>process.env.EXPO_PUBLIC_SOCKET_URL || 'http://localhost:5000'\<close>\<close>

definition baseUrl :: "env \<Rightarrow> string" where
  "baseUrl e =
     (case socketUrl e of
        Some s \<Rightarrow> if s \<noteq> [] then s else ''http://localhost:5000''
      | None \<Rightarrow> ''http://localhost:5000'')"

text \<open>\<open>items.map(t => t.expoPushToken)\<close>\<close>

fun mapTokens :: "jsval list \<Rightarrow> js_error + jsval list" where
  "mapTokens [] = Inr []"
| "mapTokens (t # ts) =
     (case field t ''expoPushToken'' of
        Inl e \<Rightarrow> Inl e
      | Inr v \<Rightarrow> (case mapTokens ts of Inl e \<Rightarrow> Inl e | Inr vs \<Rightarrow> Inr (v # vs)))"

text \<open>
  \<open>data.items?.map(t => t.expoPushToken).filter(Boolean) || []\<close>: the optional chain
  stops at an undefined or null \<open>items\<close>; any other value that is not an array has no
  callable \<open>map\<close>, and calling it throws.
\<close>

definition extractTokens :: "jsval \<Rightarrow> js_error + jsval list" where
  "extractTokens data =
     (case field data ''items'' of
        Inl e \<Rightarrow> Inl e
      | Inr items \<Rightarrow>
          if nullish items then Inr []
          else (case items of
                  JArr ts \<Rightarrow>
                    (case mapTokens ts of Inl e \<Rightarrow> Inl e | Inr vs \<Rightarrow> Inr (filter truthy vs))
                | _ \<Rightarrow> Inl TypeError))"

text \<open>The body of the \<open>try\<close> block of \<open>getPushTokens\<close>, lines 47 to 53.\<close>

definition getPushTokensTry :: "env \<Rightarrow> jsval \<Rightarrow> (jsval list) eff" where
  "getPushTokensTry e userId =
     andThen (lift (toString userId)) (\<lambda>u.
       let url = baseUrl e @ ''/api/notifications/token/'' @ u in
       andThen (effect (Fetch url)) (\<lambda>_.
         case fetch e url of
           NetworkError \<Rightarrow> lift (Inl TypeError)
         | Response ok status json \<Rightarrow>
             if \<not> ok then andThen (effect (Console ErrorL)) (\<lambda>_. ret [])
             else (case json of
                     None \<Rightarrow> lift (Inl SyntaxError)
                   | Some data \<Rightarrow> lift (extractTokens data))))"

text \<open>
  \<open>getPushTokens\<close>: the \<open>catch\<close> block logs and returns the empty array. Its log line
  prints \<open>userId\<close> again.
\<close>

definition getPushTokens :: "env \<Rightarrow> jsval \<Rightarrow> (jsval list) eff" where
  "getPushTokens e userId =
     (case getPushTokensTry e userId of
        (steps, Inr tokens) \<Rightarrow> (steps, Inr tokens)
      | (steps, Inl err) \<Rightarrow>
          (case toString userId of
             Inl e' \<Rightarrow> (steps, Inl e')
           | Inr u \<Rightarrow> (steps @ [Console ErrorL], Inr [])))"

section \<open>Backoff push sender\<close>

text \<open>\<open>err?.statusCode === 429\<close>\<close>

definition rateLimited :: "jsval \<Rightarrow> bool" where
  "rateLimited err = (optField err ''statusCode'' = JNum ''429'')"

text \<open>The TypeError object a failed conversion throws; it has no \<open>statusCode\<close>.\<close>

definition typeErrorValue :: jsval where
  "typeErrorValue = JObj [(''message'', JStr ''Cannot convert object to primitive value'')]"

text \<open>
  The loop of lines 73 to 88, from attempt number \<open>attempt\<close> with the current \<open>delay\<close>.
  The \<open>try\<close> block calls the delivery API and logs; \<open>caught\<close> is what reaches the
  \<open>catch\<close> block, if anything does. A log line that cannot print the token throws, out of
  the \<open>catch\<close> block, and the function's promise is rejected.
\<close>

function attempts ::
  "(nat \<Rightarrow> send_outcome) \<Rightarrow> jsval \<Rightarrow> push_message \<Rightarrow> nat \<Rightarrow> nat \<Rightarrow> pstep list \<times> (js_error + unit)"
  where
  "attempts api tok message attempt delay =
     (if attempt < 5 then
        (let caught =
               (case api attempt of
                  Ticket ticket \<Rightarrow>
                    (case toString tok of Inr s \<Rightarrow> None | Inl e \<Rightarrow> Some typeErrorValue)
                | Throws err \<Rightarrow> Some err)
         in case caught of
              None \<Rightarrow> ([SendPush message, PConsole LogL], Inr ())
            | Some err \<Rightarrow>
                if rateLimited err \<and> attempt < 4 then
                  (case toString tok of
                     Inl e \<Rightarrow> ([SendPush message], Inl e)
                   | Inr s \<Rightarrow>
                       (case attempts api tok message (attempt + 1) (delay * 2) of
                          (steps, r) \<Rightarrow>
                            (SendPush message # PConsole WarnL # Sleep delay # steps, r)))
                else
                  (case toString tok of
                     Inl e \<Rightarrow> ([SendPush message], Inl e)
                   | Inr s \<Rightarrow> ([SendPush message, PConsole ErrorL], Inr ())))
      else ([], Inr ()))"
  by pat_completeness auto
termination
  by (relation "measure (\<lambda>(api, tok, message, attempt, delay). 5 - attempt)") auto

declare attempts.simps [simp del]

definition sendPushWithRetry ::
  "(jsval \<Rightarrow> bool) \<Rightarrow> (nat \<Rightarrow> send_outcome) \<Rightarrow> jsval \<Rightarrow> jsval \<Rightarrow> pstep list \<times> (js_error + unit)"
  where
  "sendPushWithRetry valid api expoPushToken messageContent =
     (if \<not> valid expoPushToken then
        (case toString expoPushToken of
           Inl e \<Rightarrow> ([], Inl e)
         | Inr s \<Rightarrow> ([PConsole WarnL], Inr ()))
      else
        attempts api expoPushToken
          \<lparr>to = expoPushToken, title = ''New message'', body = messageContent\<rparr> 0 1000)"

section \<open>Connection session and router\<close>

text \<open>
  The fan-out of line 124: \<open>tokens.map(token => sendPushWithRetry(token, messageContent))\<close>
  calls the sender once per element, in order; \<open>Promise.all\<close> is rejected when one of
  the calls is.
\<close>

definition fanOut :: "env \<Rightarrow> jsval list \<Rightarrow> jsval \<Rightarrow> unit eff" where
  "fanOut e tokens messageContent =
     (let runs =
            map (\<lambda>(i, token).
                   (token, sendPushWithRetry (isExpoPushToken e) (sendPush e i) token messageContent))
                (enumerate 0 tokens)
      in (map (\<lambda>(token, psteps, r). Invoke token messageContent psteps) runs,
          if list_all (\<lambda>(token, psteps, r). r = Inr ()) runs then Inr () else Inl TypeError))"

text \<open>The \<open>sendDirectMessage\<close> handler, lines 114 to 131.\<close>

definition sendDirectMessage :: "env \<Rightarrow> registry \<Rightarrow> jsval \<Rightarrow> unit eff" where
  "sendDirectMessage e reg payload =
     andThen (lift (field payload ''recipientId'')) (\<lambda>recipientId.
     let senderId = lookup payload ''senderId'';
         messageContent = lookup payload ''messageContent'' in
     andThen (lift (toString senderId)) (\<lambda>s.
     andThen (lift (toString recipientId)) (\<lambda>r.
     andThen (lift (toString messageContent)) (\<lambda>m.
     andThen (effect (Console LogL)) (\<lambda>_.
     if truthy recipientId then
       andThen (effect (Emit (''user:'' @ r) ''newDirectMessage'' payload)) (\<lambda>_.
       andThen (effect (ReadActive r)) (\<lambda>_.
       if active reg r = SNum 0 then
         andThen (getPushTokens e recipientId) (\<lambda>tokens.
         fanOut e tokens messageContent)
       else effect (Console LogL)))
     else ret ())))))"

text \<open>The \<open>sendGroupMessage\<close> handler, lines 134 to 140.\<close>

definition sendGroupMessage :: "jsval \<Rightarrow> unit eff" where
  "sendGroupMessage payload =
     andThen (lift (field payload ''groupChatId'')) (\<lambda>groupChatId.
     andThen (lift (toString groupChatId)) (\<lambda>g.
     andThen (lift (toString (lookup payload ''messageContent''))) (\<lambda>m.
     andThen (effect (Console LogL)) (\<lambda>_.
     if truthy groupChatId then effect (Emit (''group:'' @ g) ''newGroupMessage'' payload)
     else ret ()))))"

text \<open>The \<open>directMessageRead\<close> handler, lines 143 to 149.\<close>

definition directMessageRead :: "jsval \<Rightarrow> unit eff" where
  "directMessageRead payload =
     andThen (lift (field payload ''messageId'')) (\<lambda>messageId.
     let senderId = lookup payload ''senderId'';
         readerId = lookup payload ''readerId'' in
     andThen (lift (toString messageId)) (\<lambda>m.
     andThen (lift (toString readerId)) (\<lambda>r.
     andThen (effect (Console LogL)) (\<lambda>_.
     if truthy senderId then
       andThen (lift (toString senderId)) (\<lambda>s.
       effect (Emit (''user:'' @ s) ''directMessageRead'' payload))
     else ret ()))))"

text \<open>The \<open>joinGroup\<close> handler of the socket \<open>sid\<close>, lines 152 to 157.\<close>

definition joinGroup :: "string \<Rightarrow> jsval \<Rightarrow> unit eff" where
  "joinGroup sid payload =
     andThen (lift (field payload ''groupChatId'')) (\<lambda>groupChatId.
     andThen (lift (toString groupChatId)) (\<lambda>g.
     andThen (effect (Console LogL)) (\<lambda>_.
     if truthy groupChatId then effect (Join sid (''group:'' @ g))
     else ret ())))"

text \<open>
  The \<open>connection\<close> handler, lines 92 to 100, for the socket \<open>sid\<close> whose handshake
  query holds \<open>userId\<close> (undefined when the client gave none). It returns the registry.
\<close>

definition connection :: "registry \<Rightarrow> string \<Rightarrow> jsval \<Rightarrow> registry \<times> unit eff" where
  "connection reg sid userId =
     (case toString userId of
        Inl e \<Rightarrow> (reg, lift (Inl e))
      | Inr u \<Rightarrow>
          if truthy userId then
            (markOnline reg u, ([Console LogL, Join sid (''user:'' @ u), Console LogL], Inr ()))
          else (reg, ([Console LogL], Inr ())))"

text \<open>The \<open>disconnect\<close> handler, lines 102 to 110, registered when \<open>userId\<close> is truthy.\<close>

definition disconnect :: "registry \<Rightarrow> jsval \<Rightarrow> registry \<times> unit eff" where
  "disconnect reg userId =
     (case toString userId of
        Inl e \<Rightarrow> (reg, lift (Inl e))
      | Inr u \<Rightarrow> (markOffline reg u, ([Console LogL], Inr ())))"

text \<open>The inbound events of a socket, and their dispatch. Only the session's lifecycle
  writes the registry.\<close>

datatype inbound =
    SendDirectMessage jsval
  | SendGroupMessage jsval
  | DirectMessageRead jsval
  | JoinGroup jsval

fun handle :: "env \<Rightarrow> registry \<Rightarrow> string \<Rightarrow> inbound \<Rightarrow> registry \<times> unit eff" where
  "handle e reg sid (SendDirectMessage payload) = (reg, sendDirectMessage e reg payload)"
| "handle e reg sid (SendGroupMessage payload) = (reg, sendGroupMessage payload)"
| "handle e reg sid (DirectMessageRead payload) = (reg, directMessageRead payload)"
| "handle e reg sid (JoinGroup payload) = (reg, joinGroup sid payload)"

section \<open>Observations on a run\<close>

text \<open>The multicasts of a run, and its calls of the push sender with their arguments.\<close>

fun isEmit :: "step \<Rightarrow> bool" where
  "isEmit (Emit room event payload) = True"
| "isEmit st = False"

fun invocation :: "step \<Rightarrow> (jsval \<times> jsval) option" where
  "invocation (Invoke token content psteps) = Some (token, content)"
| "invocation st = None"

definition invocations :: "step list \<Rightarrow> (jsval \<times> jsval) list" where
  "invocations steps = List.map_filter invocation steps"

text \<open>The delivery-API attempts of one call of the sender, and its waits.\<close>

fun isSend :: "pstep \<Rightarrow> bool" where
  "isSend (SendPush message) = True"
| "isSend st = False"

definition attemptsMade :: "pstep list \<Rightarrow> nat" where
  "attemptsMade psteps = length (filter isSend psteps)"

fun sleepOf :: "pstep \<Rightarrow> nat option" where
  "sleepOf (Sleep d) = Some d"
| "sleepOf st = None"

definition delays :: "pstep list \<Rightarrow> nat list" where
  "delays psteps = List.map_filter sleepOf psteps"

text \<open>An attempt's outcome is a rate-limit failure when it threw a value whose
  \<open>statusCode\<close> is 429.\<close>

definition rateLimitFailure :: "send_outcome \<Rightarrow> bool" where
  "rateLimitFailure out = (case out of Ticket t \<Rightarrow> False | Throws err \<Rightarrow> rateLimited err)"

text \<open>The level of the log line that ends a call: \<open>console.log\<close> after a success,
  \<open>console.error\<close> after a failure.\<close>

definition closing :: "send_outcome \<Rightarrow> level" where
  "closing out = (case out of Ticket t \<Rightarrow> LogL | Throws err \<Rightarrow> ErrorL)"

text \<open>\<open>k\<close> rounds of attempt, warning and wait, the waits doubling from \<open>d\<close>.\<close>

fun rounds :: "push_message \<Rightarrow> nat \<Rightarrow> nat \<Rightarrow> pstep list" where
  "rounds message d 0 = []"
| "rounds message d (Suc k) =
     SendPush message # PConsole WarnL # Sleep d # rounds message (d * 2) k"

text \<open>
  A parsed response body the resolver cannot read: null, or one whose \<open>items\<close> is
  neither absent, null nor an array, or is an array with a null element. The records of a
  body it can read are the elements of \<open>items\<close>, none when \<open>items\<close> is absent or null.
\<close>

definition malformed :: "jsval \<Rightarrow> bool" where
  "malformed data =
     (nullish data \<or>
      (case lookup data ''items'' of
         JArr recs \<Rightarrow> list_ex nullish recs
       | v \<Rightarrow> \<not> nullish v))"

definition records :: "jsval \<Rightarrow> jsval list" where
  "records data = (case lookup data ''items'' of JArr recs \<Rightarrow> recs | v \<Rightarrow> [])"

text \<open>The payload of an inbound event, the routing key its handler requires, and the
  payload fields its first log line prints.\<close>

fun payloadOf :: "inbound \<Rightarrow> jsval" where
  "payloadOf (SendDirectMessage payload) = payload"
| "payloadOf (SendGroupMessage payload) = payload"
| "payloadOf (DirectMessageRead payload) = payload"
| "payloadOf (JoinGroup payload) = payload"

fun routingKey :: "inbound \<Rightarrow> string" where
  "routingKey (SendDirectMessage payload) = ''recipientId''"
| "routingKey (SendGroupMessage payload) = ''groupChatId''"
| "routingKey (DirectMessageRead payload) = ''senderId''"
| "routingKey (JoinGroup payload) = ''groupChatId''"

fun logged :: "inbound \<Rightarrow> string list" where
  "logged (SendDirectMessage payload) = [''senderId'', ''recipientId'', ''messageContent'']"
| "logged (SendGroupMessage payload) = [''groupChatId'', ''messageContent'']"
| "logged (DirectMessageRead payload) = [''messageId'', ''readerId'']"
| "logged (JoinGroup payload) = [''groupChatId'']"

text \<open>The count the calls for user \<open>u\<close> in a sequence leave, from the count \<open>c\<close>: a
  decrement at zero stays at zero.\<close>

fun countAfter :: "string \<Rightarrow> int \<Rightarrow> call list \<Rightarrow> int" where
  "countAfter u c [] = c"
| "countAfter u c (MarkOnline k # cs) = countAfter u (if k = u then c + 1 else c) cs"
| "countAfter u c (MarkOffline k # cs) = countAfter u (if k = u then max 0 (c - 1) else c) cs"

text \<open>
  What the resolver's contract gives for the user \<open>u\<close>: nothing when the request fails,
  the status is not a success or the body cannot be read; otherwise the populated
  \<open>expoPushToken\<close> fields of the records, in the order of the response.
\<close>

definition resolved :: "env \<Rightarrow> string \<Rightarrow> jsval list" where
  "resolved e u =
     (case fetch e (baseUrl e @ ''/api/notifications/token/'' @ u) of
        NetworkError \<Rightarrow> []
      | Response ok status json \<Rightarrow>
          if \<not> ok then []
          else (case json of
                  None \<Rightarrow> []
                | Some data \<Rightarrow>
                    if malformed data then []
                    else filter truthy (map (\<lambda>t. lookup t ''expoPushToken'') (records data))))"

text \<open>A scenario: user B has no live connection and three registered addresses, one
  of them twice, beside a record without address; the directory knows no other user.\<close>

definition demoEnv :: env where
  "demoEnv =
     \<lparr>socketUrl = None,
      fetch = (\<lambda>url.
        if url = ''http://localhost:5000/api/notifications/token/B''
        then Response True 200
               (Some (JObj [(''items'',
                  JArr [JObj [(''expoPushToken'', JStr ''ExponentPushToken[one]'')],
                        JObj [(''expoPushToken'', JNull)],
                        JObj [(''expoPushToken'', JStr ''ExponentPushToken[two]'')],
                        JObj [(''expoPushToken'', JStr ''ExponentPushToken[one]'')]])]))
        else Response False 500 None),
      isExpoPushToken = (\<lambda>t. t = JStr ''ExponentPushToken[one]'' \<or> t = JStr ''ExponentPushToken[two]''),
      sendPush = (\<lambda>i n. Ticket (JArr []))\<rparr>"

definition demoPayload :: jsval where
  "demoPayload =
     JObj [(''senderId'', JStr ''A''), (''recipientId'', JStr ''B''),
           (''messageContent'', JStr ''hi'')]"

text \<open>A second scenario: the directory lists one address for every user, and a direct
  message is addressed to the user id \<open>constructor\<close>.\<close>

definition oneAddressEnv :: env where
  "oneAddressEnv =
     \<lparr>socketUrl = None,
      fetch = (\<lambda>url. Response True 200
                 (Some (JObj [(''items'',
                    JArr [JObj [(''expoPushToken'', JStr ''ExponentPushToken[one]'')]])]))),
      isExpoPushToken = (\<lambda>t. t = JStr ''ExponentPushToken[one]''),
      sendPush = (\<lambda>i n. Ticket (JArr []))\<rparr>"

definition builtinPayload :: jsval where
  "builtinPayload =
     JObj [(''senderId'', JStr ''A''), (''recipientId'', JStr ''constructor''),
           (''messageContent'', JStr ''hi'')]"

text \<open>A registry all of whose entries are positive counts.\<close>

definition positiveCounts :: "registry \<Rightarrow> bool" where
  "positiveCounts reg = (\<forall>k v. reg k = Some v \<longrightarrow> (\<exists>n. v = SNum n \<and> 0 < n))"

section \<open>The presence registry: counts\<close>

text \<open>
  A user id is plain when it is not the name of a built-in property of objects. For a plain
  id the entry of a user is absent or a positive number, and the calls act on it as on a
  counter that stops at zero.
\<close>

lemma plain_not_proto: "k \<notin> set objectPrototypeNames \<Longrightarrow> k \<noteq> ''__proto__''"
  by (auto simp: objectPrototypeNames_def)

lemma markOnline_other: "k \<noteq> u \<Longrightarrow> markOnline reg k u = reg u"
  by (simp add: markOnline_def setSlot_def)

lemma markOffline_other: "k \<noteq> u \<Longrightarrow> markOffline reg k u = reg u"
  by (simp add: markOffline_def setSlot_def deleteSlot_def Let_def)

lemma markOnline_plain:
  assumes "k \<notin> set objectPrototypeNames" and "0 \<le> c"
    and "reg k = (if 0 < c then Some (SNum c) else None)"
  shows "markOnline reg k k = Some (SNum (c + 1))"
  using assms plain_not_proto[OF assms(1)]
  by (auto simp: markOnline_def setSlot_def getSlot_def orElse_def)

lemma markOffline_plain:
  assumes "k \<notin> set objectPrototypeNames" and "0 \<le> c"
    and "reg k = (if 0 < c then Some (SNum c) else None)"
  shows "markOffline reg k k = (if 1 < c then Some (SNum (c - 1)) else None)"
  using assms plain_not_proto[OF assms(1)]
  by (auto simp: markOffline_def setSlot_def getSlot_def orElse_def deleteSlot_def Let_def)

lemma applyCall_plain:
  assumes "u \<notin> set objectPrototypeNames" and "0 \<le> c"
    and "reg u = (if 0 < c then Some (SNum c) else None)"
  shows "applyCall reg a u =
           (if 0 < countAfter u c [a] then Some (SNum (countAfter u c [a])) else None)"
proof (cases a)
  case (MarkOnline k)
  show ?thesis
  proof (cases "k = u")
    case True
    with markOnline_plain[where reg=reg and k=u and c=c] assms show ?thesis
      by (simp add: MarkOnline)
  next
    case False
    with assms show ?thesis by (simp add: MarkOnline markOnline_other)
  qed
next
  case (MarkOffline k)
  show ?thesis
  proof (cases "k = u")
    case True
    with markOffline_plain[where reg=reg and k=u and c=c] assms show ?thesis
      by (simp add: MarkOffline max_def)
  next
    case False
    with assms show ?thesis by (simp add: MarkOffline markOffline_other)
  qed
qed

lemma countAfter_Cons: "countAfter u c (a # cs) = countAfter u (countAfter u c [a]) cs"
  by (cases a) simp_all

lemma countAfter_single_nonneg: "0 \<le> c \<Longrightarrow> 0 \<le> countAfter u c [a]"
  by (cases a) simp_all

lemma run_plain:
  assumes "u \<notin> set objectPrototypeNames"
  shows "0 \<le> c \<Longrightarrow> reg u = (if 0 < c then Some (SNum c) else None) \<Longrightarrow>
     run reg cs u = (if 0 < countAfter u c cs then Some (SNum (countAfter u c cs)) else None)"
proof (induction cs arbitrary: reg c)
  case Nil
  then show ?case by simp
next
  case (Cons a cs)
  have step: "applyCall reg a u =
           (if 0 < countAfter u c [a] then Some (SNum (countAfter u c [a])) else None)"
    using applyCall_plain[where reg=reg and u=u and c=c and a=a] assms Cons.prems by simp
  have "run (applyCall reg a) cs u =
      (if 0 < countAfter u (countAfter u c [a]) cs
       then Some (SNum (countAfter u (countAfter u c [a]) cs)) else None)"
    using Cons.IH[of "countAfter u c [a]" "applyCall reg a"] step
      countAfter_single_nonneg[OF Cons.prems(1)] by simp
  then show ?case
    by (simp add: countAfter_Cons[of u c a cs])
qed

lemma countAfter_lower:
  "c + int (count_list cs (MarkOnline u)) - int (count_list cs (MarkOffline u)) \<le> countAfter u c cs"
  by (induction u c cs rule: countAfter.induct) (auto simp: max_def)

lemma countAfter_paired:
  "\<forall>n\<le>length cs. int (count_list (take n cs) (MarkOffline u))
        \<le> c + int (count_list (take n cs) (MarkOnline u))
   \<Longrightarrow> countAfter u c cs = c + int (count_list cs (MarkOnline u)) - int (count_list cs (MarkOffline u))"
proof (induction cs arbitrary: c)
  case Nil
  then show ?case by simp
next
  case (Cons a cs)
  let ?c' = "countAfter u c [a]"
  have first: "int (count_list [a] (MarkOffline u)) \<le> c + int (count_list [a] (MarkOnline u))"
    using Cons.prems[rule_format, of 1] by simp
  have c': "?c' = c + int (count_list [a] (MarkOnline u)) - int (count_list [a] (MarkOffline u))"
    using first by (cases a) (auto simp: max_def)
  have "\<forall>n\<le>length cs. int (count_list (take n cs) (MarkOffline u))
        \<le> ?c' + int (count_list (take n cs) (MarkOnline u))"
  proof (intro allI impI)
    fix n assume "n \<le> length cs"
    then have "Suc n \<le> length (a # cs)" by simp
    from Cons.prems[rule_format, OF this] c'
    show "int (count_list (take n cs) (MarkOffline u))
        \<le> ?c' + int (count_list (take n cs) (MarkOnline u))"
      by (cases a) (auto split: if_splits)
  qed
  from Cons.IH[OF this] c' show ?case
    by (simp add: countAfter_Cons[of u c a cs])
qed

lemma isOnline_plain:
  assumes "u \<notin> set objectPrototypeNames"
    and "reg u = (if 0 < c then Some (SNum c) else None)"
  shows "isOnline reg u \<longleftrightarrow> 0 < c"
  using assms by (auto simp: isOnline_def active_def getSlot_def orElse_def)


text \<open>
  For a plain user id the registry counts as C3 says. Starting from the empty registry,
  after any sequence of \<open>markOnline\<close> and \<open>markOffline\<close> calls containing N \<open>markOnline(U)\<close>
  and M \<open>markOffline(U)\<close>: if N > M then \<open>isOnline(U)\<close> is true; if N \<le> M and every prefix
  of the sequence has at least as many \<open>markOnline(U)\<close> as \<open>markOffline(U)\<close>, then
  \<open>isOnline(U)\<close> is false and U has no entry in the registry. The server's calls always come
  in such an order: \<open>markOffline\<close> is the disconnect handler, which a socket registers
  after its own increment and runs once. In any order at all, U is offline exactly when
  it has no entry.
\<close>

theorem presence_after_calls:
  assumes "u \<notin> set objectPrototypeNames"
  shows "(count_list cs (MarkOffline u) < count_list cs (MarkOnline u)
            \<longrightarrow> isOnline (run Map.empty cs) u)
       \<and> ((\<forall>n\<le>length cs. count_list (take n cs) (MarkOffline u)
                              \<le> count_list (take n cs) (MarkOnline u))
            \<and> count_list cs (MarkOnline u) \<le> count_list cs (MarkOffline u)
            \<longrightarrow> \<not> isOnline (run Map.empty cs) u \<and> run Map.empty cs u = None)"
proof -
  have state: "run Map.empty cs u =
      (if 0 < countAfter u 0 cs then Some (SNum (countAfter u 0 cs)) else None)"
    using run_plain[OF assms, of 0 Map.empty cs] by simp
  have online: "isOnline (run Map.empty cs) u \<longleftrightarrow> 0 < countAfter u 0 cs"
    using isOnline_plain[where reg="run Map.empty cs" and u=u and c="countAfter u 0 cs"] assms state
    by simp
  have more: "isOnline (run Map.empty cs) u"
    if "count_list cs (MarkOffline u) < count_list cs (MarkOnline u)"
    using countAfter_lower[of 0 cs u] that online by simp
  have less: "\<not> isOnline (run Map.empty cs) u \<and> run Map.empty cs u = None"
    if paired: "\<forall>n\<le>length cs. count_list (take n cs) (MarkOffline u)
                              \<le> count_list (take n cs) (MarkOnline u)"
      and le: "count_list cs (MarkOnline u) \<le> count_list cs (MarkOffline u)"
  proof -
    have "countAfter u 0 cs = 0 + int (count_list cs (MarkOnline u)) - int (count_list cs (MarkOffline u))"
      using paired by (intro countAfter_paired) simp
    with le have "countAfter u 0 cs \<le> 0" by simp
    with state online show ?thesis by simp
  qed
  from more less show ?thesis by blast
qed

theorem presence_after_calls_witness:
  "''alice'' \<notin> set objectPrototypeNames
   \<and> isOnline (run Map.empty [MarkOnline ''alice'', MarkOnline ''bob'', MarkOnline ''alice'', MarkOffline ''alice'']) ''alice''
   \<and> \<not> isOnline (run Map.empty [MarkOnline ''alice'', MarkOnline ''bob'', MarkOffline ''alice'']) ''alice''
   \<and> run Map.empty [MarkOnline ''alice'', MarkOnline ''bob'', MarkOffline ''alice''] ''alice'' = None"
proof -
  have plain: "''alice'' \<notin> set objectPrototypeNames"
    by (simp add: objectPrototypeNames_def)
  let ?cs = "[MarkOnline ''alice'', MarkOnline ''bob'', MarkOffline ''alice'']"
  have paired: "\<forall>n\<le>length ?cs. count_list (take n ?cs) (MarkOffline ''alice'')
                              \<le> count_list (take n ?cs) (MarkOnline ''alice'')"
  proof (intro allI impI)
    fix n assume "n \<le> length ?cs"
    then have "n = 0 \<or> n = 1 \<or> n = 2 \<or> n = 3" by auto
    then show "count_list (take n ?cs) (MarkOffline ''alice'')
                              \<le> count_list (take n ?cs) (MarkOnline ''alice'')"
      by (elim disjE) (simp_all add: numeral_2_eq_2 numeral_3_eq_3)
  qed
  show ?thesis
    using presence_after_calls[OF plain, of "[MarkOnline ''alice'', MarkOnline ''bob'', MarkOnline ''alice'', MarkOffline ''alice'']"]
      presence_after_calls[OF plain, of ?cs] paired plain
    by simp
qed

lemma offline_iff_absent:
  assumes "u \<notin> set objectPrototypeNames"
  shows "isOnline (run Map.empty cs) u \<longleftrightarrow> run Map.empty cs u \<noteq> None"
proof -
  have state: "run Map.empty cs u =
      (if 0 < countAfter u 0 cs then Some (SNum (countAfter u 0 cs)) else None)"
    using run_plain[OF assms, of 0 Map.empty cs] by simp
  have "isOnline (run Map.empty cs) u \<longleftrightarrow> 0 < countAfter u 0 cs"
    using isOnline_plain[where reg="run Map.empty cs" and u=u and c="countAfter u 0 cs"] assms state
    by simp
  with state show ?thesis by simp
qed

lemma connection_registry:
  assumes "truthy userId" and "toString userId = Inr u"
  shows "fst (connection reg sid userId) = markOnline reg u"
  using assms by (simp add: connection_def)

lemma disconnect_registry:
  assumes "toString userId = Inr u"
  shows "fst (disconnect reg userId) = markOffline reg u"
  using assms by (simp add: disconnect_def)

text \<open>
  C3 at the user id \<open>constructor\<close>, which a client may give in its handshake query. With
  no call at all (N = M = 0) \<open>isOnline\<close> is true: the read finds the inherited property.
  After two connections and one disconnect (N = 2, M = 1) \<open>isOnline\<close> is false: the first
  increment stored a string, the decrement turned it into NaN, which counts as no
  connection although one socket is still connected.
\<close>

theorem builtin_name_presence_miscounted:
  "count_list ([] :: call list) (MarkOnline ''constructor'')
     \<le> count_list ([] :: call list) (MarkOffline ''constructor'')
   \<and> isOnline (run Map.empty []) ''constructor''
   \<and> count_list [MarkOnline ''constructor'', MarkOnline ''constructor'', MarkOffline ''constructor'']
         (MarkOffline ''constructor'')
     < count_list [MarkOnline ''constructor'', MarkOnline ''constructor'', MarkOffline ''constructor'']
         (MarkOnline ''constructor'')
   \<and> \<not> isOnline
         (run Map.empty
            [MarkOnline ''constructor'', MarkOnline ''constructor'', MarkOffline ''constructor''])
         ''constructor''
   \<and> fst (disconnect
            (fst (connection (fst (connection Map.empty ''s1'' (JStr ''constructor'')))
                    ''s2'' (JStr ''constructor'')))
            (JStr ''constructor''))
       = run Map.empty
           [MarkOnline ''constructor'', MarkOnline ''constructor'', MarkOffline ''constructor'']"
  by (simp add: isOnline_def active_def connection_def disconnect_def markOnline_def
      markOffline_def setSlot_def getSlot_def orElse_def deleteSlot_def objectPrototypeNames_def)

text \<open>
  C4 at the user id \<open>constructor\<close>. With no connection at all, the registry has no entry
  for it and \<open>isOnline\<close> is true: the read finds the inherited property. After one
  connection and its disconnect, the registry has an entry for it that holds NaN, which
  \<open><= 0\<close> does not remove, and \<open>isOnline\<close> is false although the entry exists.
\<close>

theorem builtin_name_breaks_registry:
  "isOnline Map.empty ''constructor''
   \<and> fst (disconnect (fst (connection Map.empty ''s1'' (JStr ''constructor''))) (JStr ''constructor''))
        ''constructor'' = Some SNaN
   \<and> \<not> isOnline (fst (disconnect (fst (connection Map.empty ''s1'' (JStr ''constructor''))) (JStr ''constructor'')))
        ''constructor''"
  by (simp add: isOnline_def active_def connection_def disconnect_def markOnline_def markOffline_def
      setSlot_def getSlot_def orElse_def deleteSlot_def objectPrototypeNames_def)

section \<open>The presence registry: the invariant for plain ids\<close>

text \<open>
  For a plain user id, \<open>markOnline\<close> and \<open>markOffline\<close> keep every entry a positive
  count, and the user is online exactly when it has an entry. The handlers of inbound
  events return the registry they were given.
\<close>

lemma positiveCounts_entry:
  assumes "positiveCounts reg"
  shows "reg u = None \<or> (\<exists>n. reg u = Some (SNum n) \<and> 0 < n)"
proof (cases "reg u")
  case None
  then show ?thesis by simp
next
  case (Some v)
  with assms show ?thesis by (auto simp: positiveCounts_def)
qed

lemma plain_ids_keep_counts:
  assumes "positiveCounts reg" and "u \<notin> set objectPrototypeNames"
  shows "positiveCounts (markOnline reg u)"
    and "positiveCounts (markOffline reg u)"
    and "isOnline reg u \<longleftrightarrow> reg u \<noteq> None"
proof -
  have proto: "u \<noteq> ''__proto__''"
    using assms(2) by (rule plain_not_proto)
  have entry: "reg u = None \<or> (\<exists>n. reg u = Some (SNum n) \<and> 0 < n)"
    using assms(1) by (rule positiveCounts_entry)
  have others: "\<And>k v. reg k = Some v \<Longrightarrow> \<exists>n. v = SNum n \<and> 0 < n"
    using assms(1) by (simp add: positiveCounts_def)
  show "positiveCounts (markOnline reg u)"
    unfolding positiveCounts_def
  proof (intro allI impI)
    fix k v assume kv: "markOnline reg u k = Some v"
    show "\<exists>n. v = SNum n \<and> 0 < n"
    proof (cases "k = u")
      case True
      with kv entry assms(2) proto show ?thesis
        by (auto simp: markOnline_def setSlot_def getSlot_def orElse_def)
    next
      case False
      then have "markOnline reg u k = reg k"
        by (intro markOnline_other) simp
      with kv others[of k v] show ?thesis by simp
    qed
  qed
  show "positiveCounts (markOffline reg u)"
    unfolding positiveCounts_def
  proof (intro allI impI)
    fix k v assume kv: "markOffline reg u k = Some v"
    show "\<exists>n. v = SNum n \<and> 0 < n"
    proof (cases "k = u")
      case True
      with kv entry assms(2) proto show ?thesis
        by (auto simp: markOffline_def setSlot_def getSlot_def orElse_def deleteSlot_def Let_def
            split: if_splits)
    next
      case False
      then have "markOffline reg u k = reg k"
        by (intro markOffline_other) simp
      with kv others[of k v] show ?thesis by simp
    qed
  qed
  from entry assms(2)
  show "isOnline reg u \<longleftrightarrow> reg u \<noteq> None"
    by (auto simp: isOnline_def active_def getSlot_def orElse_def)
qed

lemma handlers_leave_registry: "fst (handle e reg sid ev) = reg"
  by (cases ev) simp_all

section \<open>The backoff push sender\<close>

lemma attempts_last:
  assumes "toString tok = Inr s"
  shows "attempts api tok message 4 d =
           ([SendPush message, PConsole (closing (api 4))], Inr ())"
  using assms
  by (subst attempts.simps) (simp add: closing_def split: send_outcome.splits)

lemma attempts_stop:
  assumes "toString tok = Inr s" and "n < 4" and "\<not> rateLimitFailure (api n)"
  shows "attempts api tok message n d =
           ([SendPush message, PConsole (closing (api n))], Inr ())"
  using assms
  by (subst attempts.simps)
     (simp add: closing_def rateLimitFailure_def split: send_outcome.splits)

lemma attempts_retry:
  assumes "toString tok = Inr s" and "n < 4" and "rateLimitFailure (api n)"
  shows "attempts api tok message n d =
           (SendPush message # PConsole WarnL # Sleep d # fst (attempts api tok message (Suc n) (d * 2)),
            snd (attempts api tok message (Suc n) (d * 2)))"
  using assms
  by (subst attempts.simps)
     (auto simp: rateLimitFailure_def split: send_outcome.splits prod.splits)

lemma attempts_shape:
  assumes tok: "toString tok = Inr s"
  shows "n + m = 4 \<Longrightarrow>
     \<exists>k\<le>m. attempts api tok message n d =
              (rounds message d k @ [SendPush message, PConsole (closing (api (n + k)))], Inr ())
          \<and> (\<forall>i<k. rateLimitFailure (api (n + i)))
          \<and> (k < m \<longrightarrow> \<not> rateLimitFailure (api (n + k)))"
proof (induction m arbitrary: n d)
  case 0
  then have "n = 4" by simp
  with attempts_last[OF tok] show ?case by simp
next
  case (Suc m)
  then have n: "n < 4" and next_t: "Suc n + m = 4" by simp_all
  show ?case
  proof (cases "rateLimitFailure (api n)")
    case False
    with attempts_stop[OF tok n] show ?thesis
      by (intro exI[of _ 0]) simp
  next
    case True
    from Suc.IH[OF next_t, of "d * 2"] obtain k where k: "k \<le> m"
      and run: "attempts api tok message (Suc n) (d * 2) =
              (rounds message (d * 2) k @ [SendPush message, PConsole (closing (api (Suc n + k)))], Inr ())"
      and before: "\<forall>i<k. rateLimitFailure (api (Suc n + i))"
      and stop: "k < m \<longrightarrow> \<not> rateLimitFailure (api (Suc n + k))"
      by blast
    have "\<forall>i<Suc k. rateLimitFailure (api (n + i))"
    proof (intro allI impI)
      fix i assume "i < Suc k"
      then show "rateLimitFailure (api (n + i))"
        using True before by (cases i) simp_all
    qed
    with k run stop attempts_retry[where tok=tok and s=s and n=n and api=api and message=message and d=d]
      tok n True show ?thesis
      by (intro exI[of _ "Suc k"]) simp
  qed
qed

lemma attemptsMade_rounds:
  "attemptsMade (rounds message d k @ [SendPush message, PConsole l]) = Suc k"
  by (induction k arbitrary: d) (simp_all add: attemptsMade_def)

lemma delays_rounds:
  "delays (rounds message d k @ [SendPush message, PConsole l]) = map (\<lambda>i. d * 2 ^ i) [0..<k]"
proof (induction k arbitrary: d)
  case 0
  then show ?case by (simp add: delays_def)
next
  case (Suc k)
  have "delays (rounds message d (Suc k) @ [SendPush message, PConsole l])
        = d # delays (rounds message (d * 2) k @ [SendPush message, PConsole l])"
    by (simp add: delays_def)
  also have "\<dots> = d # map (\<lambda>i. (d * 2) * 2 ^ i) [0..<k]"
    by (simp add: Suc.IH)
  also have "\<dots> = map (\<lambda>i. d * 2 ^ i) [0..<Suc k]"
    by (simp add: upt_rec[of 0] map_Suc_upt[symmetric] del: upt_Suc)
  finally show ?case .
qed

lemma four_delays: "map (\<lambda>i. 1000 * 2 ^ i) [0..<4] = [1000, 2000, 4000, 8000::nat]"
  by (simp add: upt_conv_Cons)

text \<open>
  C2. For a valid push address, whatever the delivery API answers: the sender makes \<open>k\<close>
  rounds of attempt, warning and wait, the waits doubling from 1000 ms, then one last
  attempt followed by a log line, and returns; \<open>k\<close> is at most 4, each of the first \<open>k\<close>
  attempts failed with a rate-limit signal, and unless \<open>k\<close> is 4 the last attempt did not
  (it succeeded or failed otherwise). So at most 5 attempts are made and nothing is thrown.
  When attempts 1 to 4 are rate limited and attempt 5 succeeds, 5 attempts are made, with
  waits of 1000, 2000, 4000 and 8000 ms, and the call ends on the success log. When
  attempt 1 fails without a rate-limit signal, the run is that attempt and the error log:
  1 attempt is made.
\<close>

theorem backoff_push_sender:
  assumes "valid (JStr a)"
  shows "(\<exists>k\<le>4.
            sendPushWithRetry valid api (JStr a) content =
              (rounds \<lparr>to = JStr a, title = ''New message'', body = content\<rparr> 1000 k
                 @ [SendPush \<lparr>to = JStr a, title = ''New message'', body = content\<rparr>,
                    PConsole (closing (api k))],
               Inr ())
          \<and> (\<forall>i<k. rateLimitFailure (api i))
          \<and> (k < 4 \<longrightarrow> \<not> rateLimitFailure (api k)))
     \<and> attemptsMade (fst (sendPushWithRetry valid api (JStr a) content)) \<le> 5
     \<and> snd (sendPushWithRetry valid api (JStr a) content) = Inr ()
     \<and> ((\<forall>i<4. rateLimitFailure (api i)) \<and> api 4 = Ticket ticket \<longrightarrow>
          attemptsMade (fst (sendPushWithRetry valid api (JStr a) content)) = 5
          \<and> delays (fst (sendPushWithRetry valid api (JStr a) content)) = [1000, 2000, 4000, 8000]
          \<and> last (fst (sendPushWithRetry valid api (JStr a) content)) = PConsole LogL)
     \<and> (api 0 = Throws err \<and> \<not> rateLimited err \<longrightarrow>
          fst (sendPushWithRetry valid api (JStr a) content)
            = [SendPush \<lparr>to = JStr a, title = ''New message'', body = content\<rparr>, PConsole ErrorL]
          \<and> attemptsMade (fst (sendPushWithRetry valid api (JStr a) content)) = 1)"
proof -
  let ?m = "\<lparr>to = JStr a, title = ''New message'', body = content\<rparr>"
  let ?run = "sendPushWithRetry valid api (JStr a) content"
  have unfold: "?run = attempts api (JStr a) ?m 0 1000"
    using assms by (simp add: sendPushWithRetry_def)
  from attempts_shape[of "JStr a" a 0 4 api ?m 1000]
  obtain k where k: "k \<le> 4"
    and run: "?run = (rounds ?m 1000 k @ [SendPush ?m, PConsole (closing (api k))], Inr ())"
    and before: "\<forall>i<k. rateLimitFailure (api i)"
    and stop: "k < 4 \<longrightarrow> \<not> rateLimitFailure (api k)"
    unfolding unfold by auto
  have made: "attemptsMade (fst ?run) = Suc k"
    by (simp add: run attemptsMade_rounds)
  have waits: "delays (fst ?run) = map (\<lambda>i. 1000 * 2 ^ i) [0..<k]"
    by (simp add: run delays_rounds)
  have shape: "\<exists>k\<le>4. ?run = (rounds ?m 1000 k @ [SendPush ?m, PConsole (closing (api k))], Inr ())
          \<and> (\<forall>i<k. rateLimitFailure (api i))
          \<and> (k < 4 \<longrightarrow> \<not> rateLimitFailure (api k))"
    using k run before stop by blast
  have bound: "attemptsMade (fst ?run) \<le> 5"
    using made k by simp
  have returns: "snd ?run = Inr ()"
    by (simp add: run)
  have all_limited: "attemptsMade (fst ?run) = 5
          \<and> delays (fst ?run) = [1000, 2000, 4000, 8000]
          \<and> last (fst ?run) = PConsole LogL"
    if limited: "\<forall>i<4. rateLimitFailure (api i)" and ok: "api 4 = Ticket ticket"
  proof -
    have "k = 4"
    proof (rule ccontr)
      assume "k \<noteq> 4"
      with k have "k < 4" by simp
      with stop limited show False by blast
    qed
    then show ?thesis
      using made waits ok by (simp add: run four_delays closing_def)
  qed
  have first_fails: "fst ?run = [SendPush ?m, PConsole ErrorL] \<and> attemptsMade (fst ?run) = 1"
    if thrown: "api 0 = Throws err" and other: "\<not> rateLimited err"
  proof -
    have "k = 0"
    proof (rule ccontr)
      assume "k \<noteq> 0"
      then have "0 < k" by simp
      with before have "rateLimitFailure (api 0)" by blast
      with thrown other show False by (simp add: rateLimitFailure_def)
    qed
    then show ?thesis using made thrown by (simp add: run closing_def)
  qed
  from shape bound returns all_limited first_fails show ?thesis by blast
qed

theorem backoff_push_sender_witness:
  "(\<lambda>t. t = JStr ''ExponentPushToken[x]'') (JStr ''ExponentPushToken[x]'')
   \<and> attemptsMade (fst (sendPushWithRetry (\<lambda>t. t = JStr ''ExponentPushToken[x]'')
        (\<lambda>n. if n < 4 then Throws (JObj [(''statusCode'', JNum ''429'')]) else Ticket (JArr []))
        (JStr ''ExponentPushToken[x]'') (JStr ''hi''))) = 5
   \<and> delays (fst (sendPushWithRetry (\<lambda>t. t = JStr ''ExponentPushToken[x]'')
        (\<lambda>n. if n < 4 then Throws (JObj [(''statusCode'', JNum ''429'')]) else Ticket (JArr []))
        (JStr ''ExponentPushToken[x]'') (JStr ''hi''))) = [1000, 2000, 4000, 8000]
   \<and> attemptsMade (fst (sendPushWithRetry (\<lambda>t. t = JStr ''ExponentPushToken[x]'')
        (\<lambda>n. Throws (JObj [(''statusCode'', JNum ''500'')]))
        (JStr ''ExponentPushToken[x]'') (JStr ''hi''))) = 1"
  using backoff_push_sender[where valid="\<lambda>t. t = JStr ''ExponentPushToken[x]''"
      and a="''ExponentPushToken[x]''" and content="JStr ''hi''" and ticket="JArr []" and err="JNull"
      and api="\<lambda>n. if n < 4 then Throws (JObj [(''statusCode'', JNum ''429'')]) else Ticket (JArr [])"]
    backoff_push_sender[where valid="\<lambda>t. t = JStr ''ExponentPushToken[x]''"
      and a="''ExponentPushToken[x]''" and content="JStr ''hi''"
      and err="JObj [(''statusCode'', JNum ''500'')]" and ticket="JNull"
      and api="\<lambda>n. Throws (JObj [(''statusCode'', JNum ''500'')])"]
  by (simp add: rateLimitFailure_def rateLimited_def optField_def attemptsMade_def)

text \<open>
  C8. For an address that fails the validity check (any value that converts to a string,
  so every string): the sender logs a warning and returns, with no delivery-API attempt
  and nothing thrown.
\<close>

theorem invalid_token_no_attempt:
  assumes "\<not> valid token" and "printable token"
  shows "sendPushWithRetry valid api token content = ([PConsole WarnL], Inr ())"
  using assms by (simp add: sendPushWithRetry_def printable_def split: sum.splits)

theorem invalid_token_no_attempt_witness:
  "\<not> (\<lambda>t. t = JStr ''ExponentPushToken[x]'') (JStr ''not-a-token'')
   \<and> printable (JStr ''not-a-token'')
   \<and> sendPushWithRetry (\<lambda>t. t = JStr ''ExponentPushToken[x]'') (\<lambda>n. Ticket (JArr []))
        (JStr ''not-a-token'') (JStr ''hi'') = ([PConsole WarnL], Inr ())"
  using invalid_token_no_attempt[of "\<lambda>t. t = JStr ''ExponentPushToken[x]''" "JStr ''not-a-token''"
      "\<lambda>n. Ticket (JArr [])" "JStr ''hi''"]
  by (simp add: printable_def)

section \<open>Token resolver, router and handlers\<close>

lemma falsy_printable: "\<not> truthy v \<Longrightarrow> \<exists>s. toString v = Inr s"
  by (cases v) simp_all

lemma printableE: "printable v \<Longrightarrow> \<exists>s. toString v = Inr s"
  by (cases "toString v") (simp_all add: printable_def)

lemma truthy_lookup_present: "truthy (lookup v k) \<Longrightarrow> \<not> nullish v"
  by (cases v) simp_all

lemma mapTokens_ok:
  "\<not> list_ex nullish recs \<Longrightarrow> mapTokens recs = Inr (map (\<lambda>t. lookup t ''expoPushToken'') recs)"
  by (induction recs) (simp_all add: field_def)

lemma mapTokens_null:
  "list_ex nullish recs \<Longrightarrow> mapTokens recs = Inl TypeError"
proof (induction recs)
  case Nil
  then show ?case by simp
next
  case (Cons t recs)
  then show ?case
    by (cases "nullish t") (auto simp: field_def split: sum.splits)
qed

lemma extractTokens_malformed: "malformed data \<Longrightarrow> extractTokens data = Inl TypeError"
  by (cases "lookup data ''items''")
     (auto simp: malformed_def extractTokens_def field_def mapTokens_null)

lemma extractTokens_records:
  "\<not> malformed data \<Longrightarrow>
   extractTokens data = Inr (filter truthy (map (\<lambda>t. lookup t ''expoPushToken'') (records data)))"
  by (cases "lookup data ''items''")
     (auto simp: malformed_def extractTokens_def field_def records_def mapTokens_ok)

lemma getPushTokens_run:
  assumes "toString userId = Inr u"
  shows "\<exists>fs. getPushTokens e userId = (Fetch (baseUrl e @ ''/api/notifications/token/'' @ u) # fs, Inr (resolved e u))
            \<and> (fs = [] \<or> fs = [Console ErrorL])"
proof (cases "fetch e (baseUrl e @ ''/api/notifications/token/'' @ u)")
  case NetworkError
  with assms show ?thesis
    by (simp add: getPushTokens_def getPushTokensTry_def andThen_def lift_def effect_def ret_def
        resolved_def)
next
  case (Response ok status json)
  show ?thesis
  proof (cases ok)
    case False
    with Response assms show ?thesis
      by (simp add: getPushTokens_def getPushTokensTry_def andThen_def lift_def effect_def ret_def
          resolved_def)
  next
    case True
    show ?thesis
    proof (cases json)
      case None
      with True Response assms show ?thesis
        by (simp add: getPushTokens_def getPushTokensTry_def andThen_def lift_def effect_def ret_def
            resolved_def)
    next
      case (Some data)
      show ?thesis
      proof (cases "malformed data")
        case bad: True
        with Some True Response assms extractTokens_malformed[OF bad] show ?thesis
          by (simp add: getPushTokens_def getPushTokensTry_def andThen_def lift_def effect_def
              ret_def resolved_def)
      next
        case good: False
        with Some True Response assms extractTokens_records[OF good] show ?thesis
          by (simp add: getPushTokens_def getPushTokensTry_def andThen_def lift_def effect_def
              ret_def resolved_def)
      qed
    qed
  qed
qed

lemma fanOut_invocations_from:
  "invocations (map (\<lambda>(token, psteps, r). Invoke token content psteps)
      (map (\<lambda>(i, token). (token, f i token)) (enumerate n tokens)))
   = map (\<lambda>t. (t, content)) tokens"
  by (induction tokens arbitrary: n) (simp_all add: invocations_def split: prod.splits)

lemma fanOut_emits_from:
  "filter isEmit (map (\<lambda>(token, psteps, r). Invoke token content psteps)
      (map (\<lambda>(i, token). (token, f i token)) (enumerate n tokens))) = []"
  by (induction tokens arbitrary: n) (simp_all split: prod.splits)

lemma fanOut_invocations: "invocations (fst (fanOut e tokens content)) = map (\<lambda>t. (t, content)) tokens"
  unfolding fanOut_def Let_def fst_conv by (rule fanOut_invocations_from)

lemma fanOut_emits: "filter isEmit (fst (fanOut e tokens content)) = []"
  unfolding fanOut_def Let_def fst_conv by (rule fanOut_emits_from)

lemma invocations_simps:
  "invocations [] = []"
  "invocations (Console l # steps) = invocations steps"
  "invocations (Emit room event payload # steps) = invocations steps"
  "invocations (Join sid room # steps) = invocations steps"
  "invocations (ReadActive k # steps) = invocations steps"
  "invocations (Fetch url # steps) = invocations steps"
  "invocations (Invoke token content psteps # steps) = (token, content) # invocations steps"
  by (simp_all add: invocations_def)

lemma sendDirectMessage_run:
  assumes "\<not> nullish payload"
    and "truthy (lookup payload ''recipientId'')"
    and "toString (lookup payload ''recipientId'') = Inr r"
    and "printable (lookup payload ''senderId'')"
    and "printable (lookup payload ''messageContent'')"
  shows "\<exists>fs. (fs = [] \<or> fs = [Console ErrorL]) \<and>
     sendDirectMessage e reg payload =
       (if isOnline reg r
        then ([Console LogL, Emit (''user:'' @ r) ''newDirectMessage'' payload, ReadActive r,
               Console LogL], Inr ())
        else ([Console LogL, Emit (''user:'' @ r) ''newDirectMessage'' payload, ReadActive r,
               Fetch (baseUrl e @ ''/api/notifications/token/'' @ r)]
                @ fs @ fst (fanOut e (resolved e r) (lookup payload ''messageContent'')),
              snd (fanOut e (resolved e r) (lookup payload ''messageContent''))))"
proof -
  from printableE[OF assms(4)] obtain s where s: "toString (lookup payload ''senderId'') = Inr s" ..
  from printableE[OF assms(5)] obtain m where m: "toString (lookup payload ''messageContent'') = Inr m" ..
  from getPushTokens_run[OF assms(3), of e] obtain fs where
    fs: "fs = [] \<or> fs = [Console ErrorL]"
    and tokens: "getPushTokens e (lookup payload ''recipientId'') =
       (Fetch (baseUrl e @ ''/api/notifications/token/'' @ r) # fs, Inr (resolved e r))"
    by blast
  have "sendDirectMessage e reg payload =
       (if isOnline reg r
        then ([Console LogL, Emit (''user:'' @ r) ''newDirectMessage'' payload, ReadActive r,
               Console LogL], Inr ())
        else ([Console LogL, Emit (''user:'' @ r) ''newDirectMessage'' payload, ReadActive r,
               Fetch (baseUrl e @ ''/api/notifications/token/'' @ r)]
                @ fs @ fst (fanOut e (resolved e r) (lookup payload ''messageContent'')),
              snd (fanOut e (resolved e r) (lookup payload ''messageContent''))))"
    using assms(1,2,3) s m tokens
    by (simp add: sendDirectMessage_def field_def andThen_def lift_def effect_def ret_def
        isOnline_def Let_def split: prod.splits)
  with fs show ?thesis by blast
qed

lemma getPushTokens_result:
  assumes "toString userId = Inr u"
  shows "snd (getPushTokens e userId) = Inr (resolved e u)"
  using getPushTokens_run[OF assms, of e] by auto

lemma sendDirectMessage_emits:
  assumes "\<not> nullish payload"
    and "truthy (lookup payload ''recipientId'')"
    and "toString (lookup payload ''recipientId'') = Inr r"
    and "printable (lookup payload ''senderId'')"
    and "printable (lookup payload ''messageContent'')"
  shows "filter isEmit (fst (sendDirectMessage e reg payload))
           = [Emit (''user:'' @ r) ''newDirectMessage'' payload]"
proof -
  from sendDirectMessage_run[OF assms, of e reg] obtain fs where
    fs: "fs = [] \<or> fs = [Console ErrorL]"
    and run: "sendDirectMessage e reg payload =
       (if isOnline reg r
        then ([Console LogL, Emit (''user:'' @ r) ''newDirectMessage'' payload, ReadActive r,
               Console LogL], Inr ())
        else ([Console LogL, Emit (''user:'' @ r) ''newDirectMessage'' payload, ReadActive r,
               Fetch (baseUrl e @ ''/api/notifications/token/'' @ r)]
                @ fs @ fst (fanOut e (resolved e r) (lookup payload ''messageContent'')),
              snd (fanOut e (resolved e r) (lookup payload ''messageContent''))))"
    by blast
  show ?thesis
    using fs by (auto simp: run fanOut_emits)
qed

lemma sendDirectMessage_invocations:
  assumes "\<not> nullish payload"
    and "truthy (lookup payload ''recipientId'')"
    and "toString (lookup payload ''recipientId'') = Inr r"
    and "printable (lookup payload ''senderId'')"
    and "printable (lookup payload ''messageContent'')"
  shows "invocations (fst (sendDirectMessage e reg payload))
           = (if isOnline reg r then []
              else map (\<lambda>token. (token, lookup payload ''messageContent'')) (resolved e r))"
proof -
  from sendDirectMessage_run[OF assms, of e reg] obtain fs where
    fs: "fs = [] \<or> fs = [Console ErrorL]"
    and run: "sendDirectMessage e reg payload =
       (if isOnline reg r
        then ([Console LogL, Emit (''user:'' @ r) ''newDirectMessage'' payload, ReadActive r,
               Console LogL], Inr ())
        else ([Console LogL, Emit (''user:'' @ r) ''newDirectMessage'' payload, ReadActive r,
               Fetch (baseUrl e @ ''/api/notifications/token/'' @ r)]
                @ fs @ fst (fanOut e (resolved e r) (lookup payload ''messageContent'')),
              snd (fanOut e (resolved e r) (lookup payload ''messageContent''))))"
    by blast
  show ?thesis
    using fs by (auto simp: run invocations_simps fanOut_invocations)
qed

text \<open>The scenario, evaluated.\<close>

lemma demo_payload:
  "\<not> nullish demoPayload"
  "lookup demoPayload ''recipientId'' = JStr ''B''"
  "lookup demoPayload ''senderId'' = JStr ''A''"
  "lookup demoPayload ''messageContent'' = JStr ''hi''"
  by (simp_all add: demoPayload_def)

lemma demo_response:
  "fetch demoEnv (baseUrl demoEnv @ ''/api/notifications/token/B'')
     = Response True 200
         (Some (JObj [(''items'',
            JArr [JObj [(''expoPushToken'', JStr ''ExponentPushToken[one]'')],
                  JObj [(''expoPushToken'', JNull)],
                  JObj [(''expoPushToken'', JStr ''ExponentPushToken[two]'')],
                  JObj [(''expoPushToken'', JStr ''ExponentPushToken[one]'')]])]))"
  "fetch demoEnv (baseUrl demoEnv @ ''/api/notifications/token/C'') = Response False 500 None"
  by (simp_all add: demoEnv_def baseUrl_def)

lemma demo_body:
  "\<not> malformed (JObj [(''items'',
            JArr [JObj [(''expoPushToken'', JStr ''ExponentPushToken[one]'')],
                  JObj [(''expoPushToken'', JNull)],
                  JObj [(''expoPushToken'', JStr ''ExponentPushToken[two]'')],
                  JObj [(''expoPushToken'', JStr ''ExponentPushToken[one]'')]])])"
  "records (JObj [(''items'',
            JArr [JObj [(''expoPushToken'', JStr ''ExponentPushToken[one]'')],
                  JObj [(''expoPushToken'', JNull)],
                  JObj [(''expoPushToken'', JStr ''ExponentPushToken[two]'')],
                  JObj [(''expoPushToken'', JStr ''ExponentPushToken[one]'')]])])
     = [JObj [(''expoPushToken'', JStr ''ExponentPushToken[one]'')],
        JObj [(''expoPushToken'', JNull)],
        JObj [(''expoPushToken'', JStr ''ExponentPushToken[two]'')],
        JObj [(''expoPushToken'', JStr ''ExponentPushToken[one]'')]]"
  by (simp_all add: malformed_def records_def)

lemma demo_resolved:
  "resolved demoEnv ''B''
     = [JStr ''ExponentPushToken[one]'', JStr ''ExponentPushToken[two]'',
        JStr ''ExponentPushToken[one]'']"
  "resolved demoEnv ''C'' = []"
  by (simp_all add: resolved_def demo_response demo_body)

lemma demo_presence:
  "\<not> isOnline Map.empty ''B''"
  "isOnline (markOnline Map.empty ''B'') ''B''"
  by (simp_all add: isOnline_def active_def getSlot_def orElse_def objectPrototypeNames_def
      markOnline_def setSlot_def)

text \<open>
  Apart from two defects, the handler does what C1 says. For a \<open>sendDirectMessage\<close> event
  whose payload has a non-empty \<open>recipientId\<close> (any truthy value; \<open>r\<close> is its string form)
  and whose logged fields convert to strings (as strings, numbers, booleans, null and
  absent fields do): the run holds exactly one multicast, of the payload as received, to
  the room \<open>user:r\<close> under the event name \<open>newDirectMessage\<close>; and the push sender is
  called once per address the token resolver returns for the recipient, in order, with
  the payload's \<open>messageContent\<close>, when the handler's check of lines 121 and 122 finds the
  recipient offline at that moment, and not at all when it finds the recipient online.
  For a plain recipient id and a registry of positive counts, that check finds the
  recipient offline exactly when the registry has no entry for it
  (\<open>direct_message_delivery_plain\<close>).
\<close>

theorem direct_message_delivery:
  assumes "truthy (lookup payload ''recipientId'')"
    and "toString (lookup payload ''recipientId'') = Inr r"
    and "printable (lookup payload ''senderId'')"
    and "printable (lookup payload ''messageContent'')"
  shows "filter isEmit (fst (sendDirectMessage e reg payload))
           = [Emit (''user:'' @ r) ''newDirectMessage'' payload]
       \<and> snd (getPushTokens e (lookup payload ''recipientId'')) = Inr (resolved e r)
       \<and> invocations (fst (sendDirectMessage e reg payload))
           = (if isOnline reg r then []
              else map (\<lambda>token. (token, lookup payload ''messageContent'')) (resolved e r))"
  using sendDirectMessage_emits[OF truthy_lookup_present[OF assms(1)] assms, of e reg]
    getPushTokens_result[OF assms(2), of e]
    sendDirectMessage_invocations[OF truthy_lookup_present[OF assms(1)] assms, of e reg]
  by simp

theorem direct_message_delivery_witness:
  "truthy (lookup demoPayload ''recipientId'')
   \<and> toString (lookup demoPayload ''recipientId'') = Inr ''B''
   \<and> printable (lookup demoPayload ''senderId'')
   \<and> printable (lookup demoPayload ''messageContent'')
   \<and> filter isEmit (fst (sendDirectMessage demoEnv Map.empty demoPayload))
       = [Emit ''user:B'' ''newDirectMessage'' demoPayload]
   \<and> invocations (fst (sendDirectMessage demoEnv Map.empty demoPayload))
       = [(JStr ''ExponentPushToken[one]'', JStr ''hi''),
          (JStr ''ExponentPushToken[two]'', JStr ''hi''),
          (JStr ''ExponentPushToken[one]'', JStr ''hi'')]
   \<and> invocations (fst (sendDirectMessage demoEnv (markOnline Map.empty ''B'') demoPayload)) = []"
  using direct_message_delivery[of demoPayload "''B''" demoEnv Map.empty]
    direct_message_delivery[of demoPayload "''B''" demoEnv "markOnline Map.empty ''B''"]
  by (simp add: demo_payload demo_resolved demo_presence printable_def)

lemma direct_message_delivery_plain:
  assumes "positiveCounts reg" and "r \<notin> set objectPrototypeNames"
    and "truthy (lookup payload ''recipientId'')"
    and "toString (lookup payload ''recipientId'') = Inr r"
    and "printable (lookup payload ''senderId'')"
    and "printable (lookup payload ''messageContent'')"
  shows "invocations (fst (sendDirectMessage e reg payload))
           = (if reg r = None
              then map (\<lambda>token. (token, lookup payload ''messageContent'')) (resolved e r)
              else [])"
  using sendDirectMessage_invocations[OF truthy_lookup_present[OF assms(3)] assms(3-6), of e reg]
    plain_ids_keep_counts(3)[OF assms(1,2)]
  by simp

text \<open>The second scenario, evaluated.\<close>

lemma builtin_payload:
  "\<not> nullish builtinPayload"
  "truthy (lookup builtinPayload ''recipientId'')"
  "toString (lookup builtinPayload ''recipientId'') = Inr ''constructor''"
  "printable (lookup builtinPayload ''senderId'')"
  "printable (lookup builtinPayload ''messageContent'')"
  "lookup builtinPayload ''messageContent'' = JStr ''hi''"
  by (simp_all add: builtinPayload_def printable_def)

lemma builtin_resolved: "resolved oneAddressEnv u = [JStr ''ExponentPushToken[one]'']"
  by (simp add: resolved_def oneAddressEnv_def malformed_def records_def)

lemma builtin_presence:
  "isOnline Map.empty ''constructor''"
  "\<not> isOnline
       (fst (disconnect
               (fst (connection (fst (connection Map.empty ''s1'' (JStr ''constructor'')))
                       ''s2'' (JStr ''constructor'')))
               (JStr ''constructor'')))
       ''constructor''"
  by (simp_all add: isOnline_def active_def connection_def disconnect_def markOnline_def
      markOffline_def setSlot_def getSlot_def orElse_def deleteSlot_def objectPrototypeNames_def)

text \<open>
  C1 at the recipient id \<open>constructor\<close>. With no connection at all the registry has no
  entry for the recipient and the directory resolves one address, yet the message is
  multicast and the push sender is not called: line 121 reads the inherited property, so
  \<open>active === 0\<close> is false. With two sockets of that user connected and one of them
  disconnected again, one socket is still live, yet the push sender is called: the entry
  holds NaN, which line 121 turns into 0.
\<close>

theorem builtin_name_recipient_push_inverted:
  "(Map.empty :: registry) ''constructor'' = None
   \<and> snd (getPushTokens oneAddressEnv (JStr ''constructor'')) = Inr [JStr ''ExponentPushToken[one]'']
   \<and> filter isEmit (fst (sendDirectMessage oneAddressEnv Map.empty builtinPayload))
       = [Emit ''user:constructor'' ''newDirectMessage'' builtinPayload]
   \<and> invocations (fst (sendDirectMessage oneAddressEnv Map.empty builtinPayload)) = []
   \<and> invocations
        (fst (sendDirectMessage oneAddressEnv
                (fst (disconnect
                        (fst (connection (fst (connection Map.empty ''s1'' (JStr ''constructor'')))
                                ''s2'' (JStr ''constructor'')))
                        (JStr ''constructor'')))
                builtinPayload))
       = [(JStr ''ExponentPushToken[one]'', JStr ''hi'')]"
  using sendDirectMessage_emits[OF builtin_payload(1-5), of oneAddressEnv Map.empty]
    sendDirectMessage_invocations[OF builtin_payload(1-5), of oneAddressEnv Map.empty]
    sendDirectMessage_invocations[OF builtin_payload(1-5), of oneAddressEnv
      "fst (disconnect
              (fst (connection (fst (connection Map.empty ''s1'' (JStr ''constructor'')))
                      ''s2'' (JStr ''constructor'')))
              (JStr ''constructor''))"]
    getPushTokens_result[of "JStr ''constructor''" "''constructor''" oneAddressEnv]
  by (simp add: builtin_payload(6) builtin_resolved builtin_presence)

text \<open>
  The second defect: the log line of line 116 converts \<open>senderId\<close>, \<open>recipientId\<close> and
  \<open>messageContent\<close> to strings before anything else is done. For an object that owns a
  property named toString the conversion throws, so a message with a non-empty
  \<open>recipientId\<close> is not multicast at all.
\<close>

lemma unprintable_field_stops_direct_message:
  "sendDirectMessage demoEnv Map.empty
     (JObj [(''senderId'', JStr ''A''), (''recipientId'', JStr ''B''),
            (''messageContent'', JObj [(''toString'', JNull)])])
   = ([], Inl TypeError)"
  by (simp add: sendDirectMessage_def field_def andThen_def lift_def)

text \<open>
  C5. In every run of \<open>sendDirectMessage\<close> with a non-empty \<open>recipientId\<close> (payload as in
  C1), the multicast is the first thing done after the handler's log line: the registry is
  read after it, and everything the push path does (the request to the token directory,
  the calls of the push sender with their attempts and waits) comes later still. Nothing
  before the multicast suspends the handler.
\<close>

theorem multicast_first:
  assumes "truthy (lookup payload ''recipientId'')"
    and "toString (lookup payload ''recipientId'') = Inr r"
    and "printable (lookup payload ''senderId'')"
    and "printable (lookup payload ''messageContent'')"
  shows "\<exists>rest. fst (sendDirectMessage e reg payload)
           = Console LogL # Emit (''user:'' @ r) ''newDirectMessage'' payload # ReadActive r # rest"
  using sendDirectMessage_run[OF truthy_lookup_present[OF assms(1)] assms, of e reg] by auto

theorem multicast_first_witness:
  "truthy (lookup demoPayload ''recipientId'')
   \<and> toString (lookup demoPayload ''recipientId'') = Inr ''B''
   \<and> printable (lookup demoPayload ''senderId'')
   \<and> printable (lookup demoPayload ''messageContent'')
   \<and> (\<exists>rest. fst (sendDirectMessage demoEnv Map.empty demoPayload)
           = Console LogL # Emit ''user:B'' ''newDirectMessage'' demoPayload # ReadActive ''B'' # rest)"
  using multicast_first[of demoPayload "''B''" demoEnv Map.empty]
  by (simp add: demo_payload printable_def)

lemma count_list_tagged: "count_list (map (\<lambda>t. (t, c)) xs) (a, c) = count_list xs a"
  by (induction xs) simp_all

lemma count_list_filter: "P a \<Longrightarrow> count_list (filter P xs) a = count_list xs a"
  by (induction xs) auto

text \<open>
  C10. When the directory answers with a body the resolver can read, the resolver returns
  the populated \<open>expoPushToken\<close> fields of the records in the order of the response,
  duplicates kept; for a recipient the registry's query finds offline the push sender is
  called with exactly that sequence, so an address listed \<open>k\<close> times in the response is
  the argument of \<open>k\<close> calls.
\<close>

theorem resolver_order_and_multiplicity:
  assumes "truthy (lookup payload ''recipientId'')"
    and "toString (lookup payload ''recipientId'') = Inr r"
    and "printable (lookup payload ''senderId'')"
    and "printable (lookup payload ''messageContent'')"
    and "\<not> isOnline reg r"
    and "fetch e (baseUrl e @ ''/api/notifications/token/'' @ r) = Response True status (Some data)"
    and "\<not> malformed data"
  shows "snd (getPushTokens e (lookup payload ''recipientId''))
           = Inr (filter truthy (map (\<lambda>t. lookup t ''expoPushToken'') (records data)))
       \<and> invocations (fst (sendDirectMessage e reg payload))
           = map (\<lambda>token. (token, lookup payload ''messageContent''))
               (filter truthy (map (\<lambda>t. lookup t ''expoPushToken'') (records data)))
       \<and> (truthy a \<longrightarrow>
            count_list (invocations (fst (sendDirectMessage e reg payload)))
               (a, lookup payload ''messageContent'')
            = count_list (map (\<lambda>t. lookup t ''expoPushToken'') (records data)) a)"
proof -
  have res: "resolved e r = filter truthy (map (\<lambda>t. lookup t ''expoPushToken'') (records data))"
    using assms(6,7) by (simp add: resolved_def)
  have tokens: "snd (getPushTokens e (lookup payload ''recipientId''))
           = Inr (filter truthy (map (\<lambda>t. lookup t ''expoPushToken'') (records data)))"
    using getPushTokens_result[OF assms(2), of e] by (simp add: res)
  have pushes: "invocations (fst (sendDirectMessage e reg payload))
           = map (\<lambda>token. (token, lookup payload ''messageContent''))
               (filter truthy (map (\<lambda>t. lookup t ''expoPushToken'') (records data)))"
    using sendDirectMessage_invocations[OF truthy_lookup_present[OF assms(1)] assms(1-4), of e reg]
      assms(5)
    by (simp add: res)
  have counts: "count_list (invocations (fst (sendDirectMessage e reg payload)))
               (a, lookup payload ''messageContent'')
            = count_list (map (\<lambda>t. lookup t ''expoPushToken'') (records data)) a"
    if "truthy a"
    unfolding pushes using that by (simp add: count_list_tagged count_list_filter)
  show ?thesis
  proof (intro conjI impI)
    show "snd (getPushTokens e (lookup payload ''recipientId''))
           = Inr (filter truthy (map (\<lambda>t. lookup t ''expoPushToken'') (records data)))"
      by (rule tokens)
    show "invocations (fst (sendDirectMessage e reg payload))
           = map (\<lambda>token. (token, lookup payload ''messageContent''))
               (filter truthy (map (\<lambda>t. lookup t ''expoPushToken'') (records data)))"
      by (rule pushes)
    show "count_list (invocations (fst (sendDirectMessage e reg payload)))
               (a, lookup payload ''messageContent'')
            = count_list (map (\<lambda>t. lookup t ''expoPushToken'') (records data)) a"
      if "truthy a"
      using that by (rule counts)
  qed
qed

theorem resolver_order_and_multiplicity_witness:
  "truthy (lookup demoPayload ''recipientId'')
   \<and> \<not> isOnline Map.empty ''B''
   \<and> \<not> malformed (JObj [(''items'',
                  JArr [JObj [(''expoPushToken'', JStr ''ExponentPushToken[one]'')],
                        JObj [(''expoPushToken'', JNull)],
                        JObj [(''expoPushToken'', JStr ''ExponentPushToken[two]'')],
                        JObj [(''expoPushToken'', JStr ''ExponentPushToken[one]'')]])])
   \<and> snd (getPushTokens demoEnv (JStr ''B''))
       = Inr [JStr ''ExponentPushToken[one]'', JStr ''ExponentPushToken[two]'',
              JStr ''ExponentPushToken[one]'']
   \<and> count_list (invocations (fst (sendDirectMessage demoEnv Map.empty demoPayload)))
        (JStr ''ExponentPushToken[one]'', JStr ''hi'') = 2"
  using resolver_order_and_multiplicity[of demoPayload "''B''" Map.empty demoEnv 200
      "JObj [(''items'',
                  JArr [JObj [(''expoPushToken'', JStr ''ExponentPushToken[one]'')],
                        JObj [(''expoPushToken'', JNull)],
                        JObj [(''expoPushToken'', JStr ''ExponentPushToken[two]'')],
                        JObj [(''expoPushToken'', JStr ''ExponentPushToken[one]'')]])]"
      "JStr ''ExponentPushToken[one]''"]
  by (simp add: demo_payload demo_response demo_body demo_presence printable_def)

text \<open>
  C6. For every user id, \<open>getPushTokens\<close> returns and does not throw, and what it returns
  is what the contract \<open>resolved\<close> says: the empty sequence when the request fails, when
  the response status is not a success, when the body does not parse or is malformed;
  otherwise the populated \<open>expoPushToken\<close> fields of the response's records and no others.
\<close>

theorem token_resolver:
  "snd (getPushTokens e (JStr u)) = Inr (resolved e u)
   \<and> (\<exists>tokens. snd (getPushTokens e (JStr u)) = Inr tokens)"
  using getPushTokens_run[of "JStr u" u e] by auto

theorem token_resolver_witness:
  "snd (getPushTokens demoEnv (JStr ''B''))
     = Inr [JStr ''ExponentPushToken[one]'', JStr ''ExponentPushToken[two]'',
            JStr ''ExponentPushToken[one]'']
   \<and> snd (getPushTokens demoEnv (JStr ''C'')) = Inr []"
  using token_resolver[of demoEnv "''B''"] token_resolver[of demoEnv "''C''"]
  by (simp add: demo_resolved)

lemma dropped_direct:
  assumes "\<not> nullish payload" and "\<not> truthy (lookup payload ''recipientId'')"
    and "printable (lookup payload ''senderId'')"
    and "printable (lookup payload ''messageContent'')"
  shows "sendDirectMessage e reg payload = ([Console LogL], Inr ())"
proof -
  from printableE[OF assms(3)] obtain s where s: "toString (lookup payload ''senderId'') = Inr s" ..
  from printableE[OF assms(4)] obtain m where m: "toString (lookup payload ''messageContent'') = Inr m" ..
  from falsy_printable[OF assms(2)] obtain r where r: "toString (lookup payload ''recipientId'') = Inr r" ..
  show ?thesis
    using assms(1,2) s m r
    by (simp add: sendDirectMessage_def field_def andThen_def lift_def effect_def ret_def)
qed

lemma dropped_group:
  assumes "\<not> nullish payload" and "\<not> truthy (lookup payload ''groupChatId'')"
    and "printable (lookup payload ''messageContent'')"
  shows "sendGroupMessage payload = ([Console LogL], Inr ())"
proof -
  from printableE[OF assms(3)] obtain m where m: "toString (lookup payload ''messageContent'') = Inr m" ..
  from falsy_printable[OF assms(2)] obtain g where g: "toString (lookup payload ''groupChatId'') = Inr g" ..
  show ?thesis
    using assms(1,2) m g
    by (simp add: sendGroupMessage_def field_def andThen_def lift_def effect_def ret_def)
qed

lemma dropped_read:
  assumes "\<not> nullish payload" and "\<not> truthy (lookup payload ''senderId'')"
    and "printable (lookup payload ''messageId'')"
    and "printable (lookup payload ''readerId'')"
  shows "directMessageRead payload = ([Console LogL], Inr ())"
proof -
  from printableE[OF assms(3)] obtain m where m: "toString (lookup payload ''messageId'') = Inr m" ..
  from printableE[OF assms(4)] obtain r where r: "toString (lookup payload ''readerId'') = Inr r" ..
  show ?thesis
    using assms(1,2) m r
    by (simp add: directMessageRead_def field_def andThen_def lift_def effect_def ret_def)
qed

lemma dropped_join:
  assumes "\<not> nullish payload" and "\<not> truthy (lookup payload ''groupChatId'')"
  shows "joinGroup sid payload = ([Console LogL], Inr ())"
proof -
  from falsy_printable[OF assms(2)] obtain g where g: "toString (lookup payload ''groupChatId'') = Inr g" ..
  show ?thesis
    using assms(1,2) g
    by (simp add: joinGroup_def field_def andThen_def lift_def effect_def ret_def)
qed

text \<open>
  Apart from one defect, the handlers do what C7 says. For every inbound event whose
  payload is there (not undefined or null) and whose required routing key is missing or
  empty (any falsy value), the other fields its handler logs converting to strings: the
  handler only writes its log line and returns. It emits nothing, joins no room, leaves
  the registry as it was, calls neither the token directory nor the push sender, and
  throws nothing.
\<close>

theorem incomplete_payload_dropped:
  assumes "\<not> nullish (payloadOf ev)"
    and "\<not> truthy (lookup (payloadOf ev) (routingKey ev))"
    and "\<forall>k\<in>set (logged ev). printable (lookup (payloadOf ev) k)"
  shows "handle e reg sid ev = (reg, [Console LogL], Inr ())"
proof (cases ev)
  case (SendDirectMessage payload)
  with assms dropped_direct[of payload e reg] show ?thesis by simp
next
  case (SendGroupMessage payload)
  with assms dropped_group[of payload] show ?thesis by simp
next
  case (DirectMessageRead payload)
  with assms dropped_read[of payload] show ?thesis by simp
next
  case (JoinGroup payload)
  with assms dropped_join[of payload sid] show ?thesis by simp
qed

theorem incomplete_payload_dropped_witness:
  "handle demoEnv Map.empty ''s1''
      (SendDirectMessage (JObj [(''senderId'', JStr ''A''), (''recipientId'', JStr []),
                                (''messageContent'', JStr ''hi'')]))
     = (Map.empty, [Console LogL], Inr ())
   \<and> handle demoEnv Map.empty ''s1'' (SendGroupMessage (JObj [(''messageContent'', JStr ''hi'')]))
     = (Map.empty, [Console LogL], Inr ())
   \<and> handle demoEnv Map.empty ''s1''
      (DirectMessageRead (JObj [(''messageId'', JNum ''7''), (''readerId'', JStr ''B'')]))
     = (Map.empty, [Console LogL], Inr ())
   \<and> handle demoEnv Map.empty ''s1'' (JoinGroup (JObj [(''groupChatId'', JStr [])]))
     = (Map.empty, [Console LogL], Inr ())"
  using incomplete_payload_dropped[of "SendDirectMessage (JObj [(''senderId'', JStr ''A''),
          (''recipientId'', JStr []), (''messageContent'', JStr ''hi'')])" demoEnv Map.empty "''s1''"]
    incomplete_payload_dropped[of "SendGroupMessage (JObj [(''messageContent'', JStr ''hi'')])"
       demoEnv Map.empty "''s1''"]
    incomplete_payload_dropped[of "DirectMessageRead (JObj [(''messageId'', JNum ''7''),
          (''readerId'', JStr ''B'')])" demoEnv Map.empty "''s1''"]
    incomplete_payload_dropped[of "JoinGroup (JObj [(''groupChatId'', JStr [])])"
       demoEnv Map.empty "''s1''"]
  by (simp add: printable_def)

text \<open>
  C7 at payloads that lack the routing key and hold, in a field the handler's log line
  prints, an object that owns a property named toString. The log line comes before the
  test of the routing key (lines 116, 136 and 145), its conversion throws a TypeError,
  and the handler ends on that error instead of dropping the event silently.
\<close>

theorem unprintable_logged_field_throws:
  "\<not> nullish (JObj [(''messageContent'', JObj [(''toString'', JNull)])])
   \<and> \<not> truthy (lookup (JObj [(''messageContent'', JObj [(''toString'', JNull)])]) ''groupChatId'')
   \<and> handle demoEnv Map.empty ''s1''
        (SendGroupMessage (JObj [(''messageContent'', JObj [(''toString'', JNull)])]))
       = (Map.empty, [], Inl TypeError)
   \<and> \<not> truthy (lookup (JObj [(''messageId'', JObj [(''toString'', JNull)])]) ''senderId'')
   \<and> handle demoEnv Map.empty ''s1''
        (DirectMessageRead (JObj [(''messageId'', JObj [(''toString'', JNull)])]))
       = (Map.empty, [], Inl TypeError)
   \<and> \<not> truthy (lookup (JObj [(''senderId'', JObj [(''toString'', JNull)])]) ''recipientId'')
   \<and> handle demoEnv Map.empty ''s1''
        (SendDirectMessage (JObj [(''senderId'', JObj [(''toString'', JNull)])]))
       = (Map.empty, [], Inl TypeError)"
  by (simp add: sendGroupMessage_def directMessageRead_def sendDirectMessage_def field_def
      andThen_def lift_def)

lemma no_payload_throws:
  assumes "nullish payload"
  shows "sendDirectMessage e reg payload = ([], Inl TypeError)"
    and "sendGroupMessage payload = ([], Inl TypeError)"
    and "directMessageRead payload = ([], Inl TypeError)"
    and "joinGroup sid payload = ([], Inl TypeError)"
  using assms
  by (simp_all add: sendDirectMessage_def sendGroupMessage_def directMessageRead_def joinGroup_def
      field_def andThen_def lift_def)

lemma direct_not_dropped:
  assumes "\<not> nullish payload" and "truthy (lookup payload ''recipientId'')"
  shows "sendDirectMessage e reg payload \<noteq> ([Console LogL], Inr ())"
  using assms
  by (auto simp: sendDirectMessage_def field_def andThen_def lift_def effect_def ret_def Let_def
      split: sum.splits prod.splits if_splits)

lemma group_not_dropped:
  assumes "\<not> nullish payload" and "truthy (lookup payload ''groupChatId'')"
  shows "sendGroupMessage payload \<noteq> ([Console LogL], Inr ())"
  using assms
  by (auto simp: sendGroupMessage_def field_def andThen_def lift_def effect_def ret_def
      split: sum.splits prod.splits if_splits)

lemma read_not_dropped:
  assumes "\<not> nullish payload" and "truthy (lookup payload ''senderId'')"
  shows "directMessageRead payload \<noteq> ([Console LogL], Inr ())"
  using assms
  by (auto simp: directMessageRead_def field_def andThen_def lift_def effect_def ret_def Let_def
      split: sum.splits prod.splits if_splits)

lemma join_not_dropped:
  assumes "\<not> nullish payload" and "truthy (lookup payload ''groupChatId'')"
  shows "joinGroup sid payload \<noteq> ([Console LogL], Inr ())"
  using assms
  by (auto simp: joinGroup_def field_def andThen_def lift_def effect_def ret_def
      split: sum.splits prod.splits if_splits)

text \<open>
  C9. For each of the four handlers: when the event comes with no payload (undefined or
  null), destructuring throws a TypeError before anything else is done, registry
  unchanged; and a run that is a silent drop (the log line, nothing else, a normal return)
  only happens for a payload that is there and whose routing key is missing or falsy.
\<close>

theorem missing_payload_throws:
  "(nullish (payloadOf ev) \<longrightarrow> handle e reg sid ev = (reg, [], Inl TypeError))
   \<and> (snd (handle e reg sid ev) = ([Console LogL], Inr ()) \<longrightarrow>
        \<not> nullish (payloadOf ev) \<and> \<not> truthy (lookup (payloadOf ev) (routingKey ev)))"
proof (cases ev)
  case (SendDirectMessage payload)
  with no_payload_throws(1)[of payload e reg] direct_not_dropped[of payload e reg]
  show ?thesis by (cases "nullish payload") auto
next
  case (SendGroupMessage payload)
  with no_payload_throws(2)[of payload] group_not_dropped[of payload]
  show ?thesis by (cases "nullish payload") auto
next
  case (DirectMessageRead payload)
  with no_payload_throws(3)[of payload] read_not_dropped[of payload]
  show ?thesis by (cases "nullish payload") auto
next
  case (JoinGroup payload)
  with no_payload_throws(4)[of payload sid] join_not_dropped[of payload sid]
  show ?thesis by (cases "nullish payload") auto
qed

theorem missing_payload_throws_witness:
  "nullish JUndefined \<and> nullish JNull
   \<and> handle demoEnv Map.empty ''s1'' (SendDirectMessage JUndefined) = (Map.empty, [], Inl TypeError)
   \<and> handle demoEnv Map.empty ''s1'' (SendGroupMessage JNull) = (Map.empty, [], Inl TypeError)
   \<and> handle demoEnv Map.empty ''s1'' (DirectMessageRead JUndefined) = (Map.empty, [], Inl TypeError)
   \<and> handle demoEnv Map.empty ''s1'' (JoinGroup JUndefined) = (Map.empty, [], Inl TypeError)
   \<and> snd (handle demoEnv Map.empty ''s1'' (JoinGroup (JObj []))) = ([Console LogL], Inr ())
   \<and> \<not> truthy (lookup (JObj []) ''groupChatId'')"
  using missing_payload_throws[of "SendDirectMessage JUndefined" demoEnv Map.empty "''s1''"]
    missing_payload_throws[of "SendGroupMessage JNull" demoEnv Map.empty "''s1''"]
    missing_payload_throws[of "DirectMessageRead JUndefined" demoEnv Map.empty "''s1''"]
    missing_payload_throws[of "JoinGroup JUndefined" demoEnv Map.empty "''s1''"]
    missing_payload_throws[of "JoinGroup (JObj [])" demoEnv Map.empty "''s1''"]
  by (simp add: joinGroup_def field_def andThen_def lift_def effect_def ret_def)

end
